theory Spec2Isabelle
  imports Main
begin

section \<open>The data of giw_bridge.cpp\<close>

text \<open>
  \<^verbatim>\<open>MessageType\<close> is declared in \<^verbatim>\<open>ipc/message_exchange.h\<close>; giw_bridge.cpp names four
  of its enumerators. A header is read from the socket as raw bytes, so a value that
  names none of them can reach the \<^verbatim>\<open>switch\<close> as well: that is \<open>Other\<close>.
\<close>

datatype MessageType =
    GetObservedSymbols
  | GetObservedSymbolsResponse
  | SetAvailableSymbols
  | PlotBufferRequest
  | Other nat

text \<open>
  \<^verbatim>\<open>struct UiMessage\<close> and its two subclasses. A \<^verbatim>\<open>std::string\<close> is a sequence of
  \<^verbatim>\<open>char\<close>, and so are the bytes on the socket: both are \<open>string\<close>.
\<close>

datatype UiMessage =
    GetObservedSymbolsResponseMessage "string list"
  | PlotBufferRequestMessage string

text \<open>
  What ends a call other than by returning: a failed \<^verbatim>\<open>assert(client_ != nullptr)\<close>; a
  header of which the socket held only a part (\<^verbatim>\<open>read\<close> then leaves bytes of the
  uninitialised \<^verbatim>\<open>header\<close> as they were); a decoder that reports a short read, for which
  giw_bridge.cpp has no handler; a cast to the wrong subclass of \<^verbatim>\<open>UiMessage\<close>.
\<close>

datatype error =
    AssertionFailed
  | ShortHeader
  | ShortRead
  | BadCast

text \<open>
  The wire format is fixed in \<^verbatim>\<open>ipc/message_exchange.h\<close>. The bridge is modelled for
  every format: the width of a header (\<^verbatim>\<open>sizeof(MessageType)\<close>) and the value of its
  bytes, the width and the value of a length prefix, and the time a decoder waits for
  missing bytes are parameters.
\<close>

record wire =
  header_size :: nat
  header_value :: "string \<Rightarrow> MessageType"
  header_bytes :: "MessageType \<Rightarrow> string"
  uint_size :: nat
  uint_value :: "string \<Rightarrow> nat"
  uint_bytes :: "nat \<Rightarrow> string"
  read_timeout :: nat

text \<open>
  A \<^verbatim>\<open>QTcpSocket\<close>: \<open>readable\<close> holds the bytes received and not yet read; \<open>arrivals\<close>
  is what the peer still delivers, each chunk with the milliseconds of waiting left
  until it is there (no chunk left: the peer is silent or gone); \<open>written\<close> holds the
  bytes sent. A \<^verbatim>\<open>QTcpServer\<close>: whether its port can be bound, the clients on their way
  (with the milliseconds of waiting left) and the connections accepted and not yet
  taken. A \<^verbatim>\<open>QProcess\<close>: the identifier the program gets from the operating system
  when it is started (0: it cannot be started) and the one \<^verbatim>\<open>processId()\<close> reports.
\<close>

record QTcpSocket =
  readable :: string
  arrivals :: "(nat \<times> string) list"
  written :: string

record QTcpServer =
  bindable :: bool
  listening :: bool
  connecting :: "(nat \<times> QTcpSocket) list"
  pending :: "QTcpSocket list"

record QProcess =
  launch_pid :: int
  processId :: int

text \<open>
  The members of \<^verbatim>\<open>class GiwBridge\<close> (Isabelle takes no name that ends with an
  underscore). The calls of the host's \<^verbatim>\<open>plot_callback_\<close> are recorded in \<open>plot_calls\<close>,
  one buffer name for each call, and the lines printed on \<^verbatim>\<open>cerr\<close> in \<open>cerr\<close>.
\<close>

record GiwBridge =
  process :: QProcess
  server :: QTcpServer
  client :: "QTcpSocket option"
  received_messages :: "MessageType \<rightharpoonup> UiMessage"
  plot_calls :: "string list"
  cerr :: "string list"

section \<open>The socket\<close>

text \<open>
  \<^verbatim>\<open>bytesAvailable\<close>, \<^verbatim>\<open>waitForReadyRead\<close>, \<^verbatim>\<open>read\<close> and \<^verbatim>\<open>write\<close> of Qt. Bytes reach
  \<open>readable\<close> during a wait only (the bridge runs no Qt event loop); a wait ends when the
  next chunk is there, or after \<open>msecs\<close> milliseconds, or at once when the peer delivers
  nothing more. \<^verbatim>\<open>read\<close> takes at most \<open>maxSize\<close> bytes and never waits.
\<close>

definition bytesAvailable :: "QTcpSocket \<Rightarrow> nat" where
  "bytesAvailable sock = length (readable sock)"

definition waitForReadyRead :: "nat \<Rightarrow> QTcpSocket \<Rightarrow> bool \<times> QTcpSocket" where
  "waitForReadyRead msecs sock =
     (case arrivals sock of
        [] \<Rightarrow> (False, sock)
      | (delay, bytes) # rest \<Rightarrow>
          if delay \<le> msecs
          then (True, sock\<lparr>readable := readable sock @ bytes, arrivals := rest\<rparr>)
          else (False, sock\<lparr>arrivals := (delay - msecs, bytes) # rest\<rparr>))"

definition socket_read :: "nat \<Rightarrow> QTcpSocket \<Rightarrow> string \<times> QTcpSocket" where
  "socket_read maxSize sock =
     (take maxSize (readable sock), sock\<lparr>readable := drop maxSize (readable sock)\<rparr>)"

definition socket_write :: "string \<Rightarrow> QTcpSocket \<Rightarrow> QTcpSocket" where
  "socket_write bytes sock = sock\<lparr>written := written sock @ bytes\<rparr>"

section \<open>The decoders and encoders of ipc/message_exchange.h\<close>

lemma waitForReadyRead_arrivals:
  "waitForReadyRead msecs sock = (True, sock') \<Longrightarrow> length (arrivals sock') < length (arrivals sock)"
  by (auto simp: waitForReadyRead_def split: list.splits if_splits)

text \<open>
  Modelled from the spec: the blocking read of \<^verbatim>\<open>MessageDecoder\<close>
  (ipc/message_exchange.h is not among the sources). "Decoding reads block on the socket
  until the requested byte count is available or a caller-supplied timeout elapses; a
  short read is reported to the caller rather than silently padded": \<open>None\<close> is that
  report.
\<close>

function read_exact :: "wire \<Rightarrow> nat \<Rightarrow> QTcpSocket \<Rightarrow> string option \<times> QTcpSocket" where
  "read_exact w n sock =
     (if n \<le> bytesAvailable sock
      then (case socket_read n sock of (bytes, sock') \<Rightarrow> (Some bytes, sock'))
      else (case waitForReadyRead (read_timeout w) sock of
              (True, sock') \<Rightarrow> read_exact w n sock'
            | (False, sock') \<Rightarrow> (None, sock')))"
  by pat_completeness auto
termination
  by (relation "measure (\<lambda>(w, n, sock). length (arrivals sock))")
     (auto dest: waitForReadyRead_arrivals [OF sym])

declare read_exact.simps [simp del]

text \<open>
  Modelled from the spec: \<^verbatim>\<open>MessageDecoder::receive_string\<close>. "Strings: encoded as a
  length prefix (fixed-width unsigned integer) followed by that many raw bytes."
\<close>

definition receive_string :: "wire \<Rightarrow> QTcpSocket \<Rightarrow> string option \<times> QTcpSocket" where
  "receive_string w sock =
     (case read_exact w (uint_size w) sock of
        (None, sock1) \<Rightarrow> (None, sock1)
      | (Some prefix, sock1) \<Rightarrow> read_exact w (uint_value w prefix) sock1)"

text \<open>
  Modelled from the spec: \<^verbatim>\<open>MessageDecoder::receive_symbol_list\<close>. "Sequences of
  strings: encoded as a count prefix (fixed-width unsigned integer) followed by that many
  encoded strings in sequence order."
\<close>

fun receive_strings :: "wire \<Rightarrow> nat \<Rightarrow> QTcpSocket \<Rightarrow> string list option \<times> QTcpSocket" where
  "receive_strings w 0 sock = (Some [], sock)"
| "receive_strings w (Suc n) sock =
     (case receive_string w sock of
        (None, sock1) \<Rightarrow> (None, sock1)
      | (Some s, sock1) \<Rightarrow>
          (case receive_strings w n sock1 of
             (None, sock2) \<Rightarrow> (None, sock2)
           | (Some ss, sock2) \<Rightarrow> (Some (s # ss), sock2)))"

definition receive_symbol_list :: "wire \<Rightarrow> QTcpSocket \<Rightarrow> string list option \<times> QTcpSocket" where
  "receive_symbol_list w sock =
     (case read_exact w (uint_size w) sock of
        (None, sock1) \<Rightarrow> (None, sock1)
      | (Some prefix, sock1) \<Rightarrow> receive_strings w (uint_value w prefix) sock1)"

text \<open>
  Modelled from the spec: what \<^verbatim>\<open>MessageComposer\<close> and the peer write for a string and
  for a sequence of strings, after the grammar of the wire protocol:
  \<^verbatim>\<open>String ::= LengthPrefix RawBytes\<close>, \<^verbatim>\<open>StringSeq ::= CountPrefix String*\<close>.
\<close>

definition put_string :: "wire \<Rightarrow> string \<Rightarrow> string" where
  "put_string w s = uint_bytes w (length s) @ s"

definition put_symbol_list :: "wire \<Rightarrow> string list \<Rightarrow> string" where
  "put_symbol_list w ss = uint_bytes w (length ss) @ concat (map (put_string w) ss)"

section \<open>The Inbox: \<^verbatim>\<open>received_messages_\<close>\<close>

text \<open>The assignment \<^verbatim>\<open>received_messages_[header] = ...\<close> of the dispatch switch.\<close>

definition store_message :: "MessageType \<Rightarrow> UiMessage \<Rightarrow> GiwBridge \<Rightarrow> GiwBridge" where
  "store_message header m b =
     b\<lparr>received_messages := (received_messages b)(header \<mapsto> m)\<rparr>"

text \<open>\<^verbatim>\<open>try_get_stored_message\<close>: find, move out, erase; \<^verbatim>\<open>nullptr\<close> is \<open>None\<close>.\<close>

definition try_get_stored_message ::
  "MessageType \<Rightarrow> GiwBridge \<Rightarrow> UiMessage option \<times> GiwBridge" where
  "try_get_stored_message msg_type b =
     (case received_messages b msg_type of
        Some result \<Rightarrow>
          (Some result, b\<lparr>received_messages := (received_messages b)(msg_type := None)\<rparr>)
      | None \<Rightarrow> (None, b))"

section \<open>The read-and-dispatch pass\<close>

text \<open>
  \<^verbatim>\<open>decode_plot_buffer_request\<close> and \<^verbatim>\<open>decode_get_observed_symbols_response\<close>: the
  assertion, a new message, its field filled by the decoder.
\<close>

definition decode_plot_buffer_request :: "wire \<Rightarrow> GiwBridge \<Rightarrow> error + UiMessage \<times> GiwBridge" where
  "decode_plot_buffer_request w b =
     (case client b of
        None \<Rightarrow> Inl AssertionFailed
      | Some sock \<Rightarrow>
          (case receive_string w sock of
             (None, sock') \<Rightarrow> Inl ShortRead
           | (Some buffer_name, sock') \<Rightarrow>
               Inr (PlotBufferRequestMessage buffer_name, b\<lparr>client := Some sock'\<rparr>)))"

definition decode_get_observed_symbols_response ::
  "wire \<Rightarrow> GiwBridge \<Rightarrow> error + UiMessage \<times> GiwBridge" where
  "decode_get_observed_symbols_response w b =
     (case client b of
        None \<Rightarrow> Inl AssertionFailed
      | Some sock \<Rightarrow>
          (case receive_symbol_list w sock of
             (None, sock') \<Rightarrow> Inl ShortRead
           | (Some observed_symbols, sock') \<Rightarrow>
               Inr (GetObservedSymbolsResponseMessage observed_symbols,
                    b\<lparr>client := Some sock'\<rparr>)))"

text \<open>The \<^verbatim>\<open>switch (header)\<close> of \<^verbatim>\<open>try_read_incoming_messages\<close>.\<close>

definition dispatch :: "wire \<Rightarrow> MessageType \<Rightarrow> GiwBridge \<Rightarrow> error + GiwBridge" where
  "dispatch w header b =
     (case header of
        PlotBufferRequest \<Rightarrow>
          (case decode_plot_buffer_request w b of
             Inl e \<Rightarrow> Inl e
           | Inr (m, b') \<Rightarrow> Inr (store_message header m b'))
      | GetObservedSymbolsResponse \<Rightarrow>
          (case decode_get_observed_symbols_response w b of
             Inl e \<Rightarrow> Inl e
           | Inr (m, b') \<Rightarrow> Inr (store_message header m b'))
      | _ \<Rightarrow> Inr (b\<lparr>cerr := cerr b @ [''[giw] Received message with incorrect header'']\<rparr>))"

text \<open>
  The bytes a bridge can still read: those in the socket and those on their way. Every
  round of the loop of \<^verbatim>\<open>try_read_incoming_messages\<close> takes at least one of them.
\<close>

definition undelivered :: "QTcpSocket \<Rightarrow> nat" where
  "undelivered sock = length (readable sock) + sum_list (map (length \<circ> snd) (arrivals sock))"

definition unread :: "GiwBridge \<Rightarrow> nat" where
  "unread b = (case client b of None \<Rightarrow> 0 | Some sock \<Rightarrow> undelivered sock)"

lemma waitForReadyRead_undelivered:
  "undelivered (snd (waitForReadyRead msecs sock)) = undelivered sock"
  by (auto simp: waitForReadyRead_def undelivered_def split: list.splits)

lemma socket_read_undelivered:
  "undelivered (snd (socket_read n sock)) + length (fst (socket_read n sock)) = undelivered sock"
  by (simp add: socket_read_def undelivered_def min_def)

lemma read_exact_undelivered:
  "undelivered (snd (read_exact w n sock)) \<le> undelivered sock"
proof (induction w n sock rule: read_exact.induct)
  case (1 w n sock)
  show ?case
  proof (cases "n \<le> bytesAvailable sock")
    case True
    then show ?thesis
      using socket_read_undelivered [of n sock]
      by (cases "socket_read n sock") (simp add: read_exact.simps [of w n sock])
  next
    case False
    obtain ready sock' where wt: "waitForReadyRead (read_timeout w) sock = (ready, sock')"
      by (cases "waitForReadyRead (read_timeout w) sock")
    have same: "undelivered sock' = undelivered sock"
      using waitForReadyRead_undelivered [of "read_timeout w" sock] wt by simp
    show ?thesis
    proof (cases ready)
      case True
      with False wt same "1.IH" [of True sock'] show ?thesis
        by (simp add: read_exact.simps [of w n sock])
    next
      case False
      with \<open>\<not> n \<le> bytesAvailable sock\<close> wt same show ?thesis
        by (simp add: read_exact.simps [of w n sock])
    qed
  qed
qed

lemma receive_string_undelivered:
  "undelivered (snd (receive_string w sock)) \<le> undelivered sock"
proof (cases "read_exact w (uint_size w) sock")
  case (Pair r sock1)
  then have le1: "undelivered sock1 \<le> undelivered sock"
    using read_exact_undelivered [of w "uint_size w" sock] by simp
  show ?thesis
  proof (cases r)
    case None
    with Pair le1 show ?thesis by (simp add: receive_string_def)
  next
    case (Some prefix)
    with Pair le1 read_exact_undelivered [of w "uint_value w prefix" sock1]
    show ?thesis by (simp add: receive_string_def)
  qed
qed

lemma receive_strings_undelivered:
  "undelivered (snd (receive_strings w n sock)) \<le> undelivered sock"
proof (induction n arbitrary: sock)
  case 0
  show ?case by simp
next
  case (Suc n)
  obtain r sock1 where rs: "receive_string w sock = (r, sock1)"
    by (cases "receive_string w sock")
  then have le1: "undelivered sock1 \<le> undelivered sock"
    using receive_string_undelivered [of w sock] by simp
  show ?case
  proof (cases r)
    case None
    with rs le1 show ?thesis by simp
  next
    case (Some s)
    with rs le1 Suc.IH [of sock1] show ?thesis
      by (auto split: prod.splits option.splits)
  qed
qed

lemma receive_symbol_list_undelivered:
  "undelivered (snd (receive_symbol_list w sock)) \<le> undelivered sock"
proof (cases "read_exact w (uint_size w) sock")
  case (Pair r sock1)
  then have le1: "undelivered sock1 \<le> undelivered sock"
    using read_exact_undelivered [of w "uint_size w" sock] by simp
  show ?thesis
  proof (cases r)
    case None
    with Pair le1 show ?thesis by (simp add: receive_symbol_list_def)
  next
    case (Some prefix)
    with Pair le1 receive_strings_undelivered [of w "uint_value w prefix" sock1]
    show ?thesis by (simp add: receive_symbol_list_def)
  qed
qed

lemma dispatch_unread: "dispatch w header b = Inr b' \<Longrightarrow> unread b' \<le> unread b"
proof (cases header)
  case PlotBufferRequest
  assume "dispatch w header b = Inr b'"
  with PlotBufferRequest receive_string_undelivered [of w "the (client b)"] show ?thesis
    by (auto simp: dispatch_def decode_plot_buffer_request_def store_message_def unread_def
             split: option.splits prod.splits sum.splits)
next
  case GetObservedSymbolsResponse
  assume "dispatch w header b = Inr b'"
  with GetObservedSymbolsResponse receive_symbol_list_undelivered [of w "the (client b)"]
  show ?thesis
    by (auto simp: dispatch_def decode_get_observed_symbols_response_def store_message_def
                   unread_def
             split: option.splits prod.splits sum.splits)
qed (auto simp: dispatch_def unread_def)

text \<open>
  \<^verbatim>\<open>try_read_incoming_messages\<close>: the \<^verbatim>\<open>do ... while\<close> loop, one round for each call. The
  assertion of the source stands before the loop; no round changes \<^verbatim>\<open>client_\<close> to
  \<^verbatim>\<open>nullptr\<close>, so that testing it in every round is the same. \<^verbatim>\<open>sizeof(header)\<close> is
  never 0 in C++.
\<close>

function try_read_incoming_messages :: "wire \<Rightarrow> nat \<Rightarrow> GiwBridge \<Rightarrow> error + GiwBridge" where
  "try_read_incoming_messages w msecs b =
     (case client b of
        None \<Rightarrow> Inl AssertionFailed
      | Some sock \<Rightarrow>
          (case waitForReadyRead msecs sock of (ready, sock1) \<Rightarrow>
             if bytesAvailable sock1 = 0 then Inr (b\<lparr>client := Some sock1\<rparr>)
             else
               (case socket_read (header_size w) sock1 of (raw, sock2) \<Rightarrow>
                  if header_size w = 0 \<or> length raw < header_size w then Inl ShortHeader
                  else
                    (case dispatch w (header_value w raw) (b\<lparr>client := Some sock2\<rparr>) of
                       Inl e \<Rightarrow> Inl e
                     | Inr b' \<Rightarrow>
                         (case client b' of
                            None \<Rightarrow> Inl AssertionFailed
                          | Some sock3 \<Rightarrow>
                              if bytesAvailable sock3 > 0
                              then try_read_incoming_messages w msecs b'
                              else Inr b')))))"
  by pat_completeness auto
termination
proof (relation "measure (\<lambda>(w, msecs, b). unread b)", goal_cases)
  case 1
  show ?case by simp
next
  case (2 w msecs b sock ready sock1 raw sock2 b' sock3)
  have u1: "undelivered sock1 = undelivered sock"
    using waitForReadyRead_undelivered [of msecs sock] 2 by (metis snd_conv)
  have u2: "undelivered sock2 + length raw = undelivered sock1"
    using socket_read_undelivered [of "header_size w" sock1] 2 by (metis fst_conv snd_conv)
  have "unread b' \<le> undelivered sock2"
    using dispatch_unread [of w "header_value w raw" "b\<lparr>client := Some sock2\<rparr>" b'] 2
    by (simp add: unread_def)
  moreover have "0 < length raw" using 2 by auto
  ultimately show ?case using u1 u2 2 by (simp add: unread_def)
qed

declare try_read_incoming_messages.simps [simp del]

section \<open>The operations of the bridge\<close>

text \<open>\<^verbatim>\<open>fetch_message\<close>: the Inbox, one pass of at most 3000 ms, the Inbox again.\<close>

definition fetch_message ::
  "wire \<Rightarrow> MessageType \<Rightarrow> GiwBridge \<Rightarrow> error + UiMessage option \<times> GiwBridge" where
  "fetch_message w msg_type b =
     (case try_get_stored_message msg_type b of
        (Some result, b1) \<Rightarrow> Inr (Some result, b1)
      | (None, b1) \<Rightarrow>
          (case try_read_incoming_messages w 3000 b1 of
             Inl e \<Rightarrow> Inl e
           | Inr b2 \<Rightarrow> Inr (try_get_stored_message msg_type b2)))"

text \<open>
  Modelled from the spec: \<^verbatim>\<open>MessageComposer::send\<close> writes the bytes pushed to it on the
  client socket. The assertion is the one of the calling member function.
\<close>

definition send_to_client :: "string \<Rightarrow> GiwBridge \<Rightarrow> error + GiwBridge" where
  "send_to_client bytes b =
     (case client b of
        None \<Rightarrow> Inl AssertionFailed
      | Some sock \<Rightarrow> Inr (b\<lparr>client := Some (socket_write bytes sock)\<rparr>))"

text \<open>\<^verbatim>\<open>get_observed_symbols\<close> and \<^verbatim>\<open>set_available_symbols\<close>.\<close>

definition get_observed_symbols :: "wire \<Rightarrow> GiwBridge \<Rightarrow> error + string list \<times> GiwBridge" where
  "get_observed_symbols w b =
     (case send_to_client (header_bytes w GetObservedSymbols) b of
        Inl e \<Rightarrow> Inl e
      | Inr b1 \<Rightarrow>
          (case fetch_message w GetObservedSymbolsResponse b1 of
             Inl e \<Rightarrow> Inl e
           | Inr (Some response, b2) \<Rightarrow>
               (case response of
                  GetObservedSymbolsResponseMessage observed_symbols \<Rightarrow>
                    Inr (observed_symbols, b2)
                | _ \<Rightarrow> Inl BadCast)
           | Inr (None, b2) \<Rightarrow> Inr ([], b2)))"

definition set_available_symbols :: "wire \<Rightarrow> string list \<Rightarrow> GiwBridge \<Rightarrow> error + GiwBridge" where
  "set_available_symbols w available_vars b =
     send_to_client (header_bytes w SetAvailableSymbols @ put_symbol_list w available_vars) b"

text \<open>
  \<^verbatim>\<open>std::string::c_str()\<close> as the callee reads it: a C string ends before the first NUL
  byte.
\<close>

definition c_str :: "string \<Rightarrow> string" where
  "c_str s = takeWhile (\<lambda>c. c \<noteq> CHR 0x00) s"

text \<open>
  The \<^verbatim>\<open>while\<close> loop of \<^verbatim>\<open>run_event_loop\<close>: as long as a PlotBufferRequest is stored,
  take it and call the callback with \<^verbatim>\<open>buffer_name.c_str()\<close>. A stored message of the other
  subclass makes the \<^verbatim>\<open>dynamic_cast\<close> return \<^verbatim>\<open>nullptr\<close>, which is then dereferenced.
\<close>

function drain_plot_requests :: "GiwBridge \<Rightarrow> error + GiwBridge" where
  "drain_plot_requests b =
     (case try_get_stored_message PlotBufferRequest b of
        (None, b1) \<Rightarrow> Inr b1
      | (Some plot_request_message, b1) \<Rightarrow>
          (case plot_request_message of
             PlotBufferRequestMessage buffer_name \<Rightarrow>
               drain_plot_requests (b1\<lparr>plot_calls := plot_calls b1 @ [c_str buffer_name]\<rparr>)
           | _ \<Rightarrow> Inl BadCast))"
  by pat_completeness auto
termination
  by (relation "measure (\<lambda>b. case received_messages b PlotBufferRequest of
                                None \<Rightarrow> 0 | Some m \<Rightarrow> Suc 0)")
     (auto simp: try_get_stored_message_def split: option.splits)

declare drain_plot_requests.simps [simp del]

text \<open>\<^verbatim>\<open>run_event_loop\<close>: one pass of at most \<^verbatim>\<open>static_cast<int>(1000.0 / 5.0)\<close> = 200 ms, then the loop.\<close>

definition run_event_loop :: "wire \<Rightarrow> GiwBridge \<Rightarrow> error + GiwBridge" where
  "run_event_loop w b =
     (case try_read_incoming_messages w 200 b of
        Inl e \<Rightarrow> Inl e
      | Inr b1 \<Rightarrow> drain_plot_requests b1)"

section \<open>Starting the bridge\<close>

text \<open>
  \<^verbatim>\<open>QTcpServer::listen\<close>, \<^verbatim>\<open>waitForNewConnection\<close>, \<^verbatim>\<open>nextPendingConnection\<close> and
  \<^verbatim>\<open>QProcess::start\<close> of Qt. \<^verbatim>\<open>listen\<close> fails when the port cannot be bound, and on a
  server that listens already.
\<close>

definition listen :: "QTcpServer \<Rightarrow> bool \<times> QTcpServer" where
  "listen srv =
     (if bindable srv \<and> \<not> listening srv then (True, srv\<lparr>listening := True\<rparr>)
      else (False, srv))"

definition waitForNewConnection :: "nat \<Rightarrow> QTcpServer \<Rightarrow> bool \<times> QTcpServer" where
  "waitForNewConnection msecs srv =
     (if pending srv \<noteq> [] then (True, srv)
      else
        (case connecting srv of
           [] \<Rightarrow> (False, srv)
         | (delay, sock) # rest \<Rightarrow>
             if delay \<le> msecs
             then (True, srv\<lparr>pending := pending srv @ [sock], connecting := rest\<rparr>)
             else (False, srv\<lparr>connecting := (delay - msecs, sock) # rest\<rparr>)))"

definition nextPendingConnection :: "QTcpServer \<Rightarrow> QTcpSocket option \<times> QTcpServer" where
  "nextPendingConnection srv =
     (case pending srv of
        [] \<Rightarrow> (None, srv)
      | sock # rest \<Rightarrow> (Some sock, srv\<lparr>pending := rest\<rparr>))"

definition process_start :: "QProcess \<Rightarrow> QProcess" where
  "process_start p = p\<lparr>processId := launch_pid p\<rparr>"

text \<open>\<^verbatim>\<open>wait_for_client\<close>, \<^verbatim>\<open>start\<close> and the constructor.\<close>

definition wait_for_client :: "GiwBridge \<Rightarrow> GiwBridge" where
  "wait_for_client b =
     (if client b = None
      then
        (case waitForNewConnection 10000 (server b) of (connected, srv1) \<Rightarrow>
           (case nextPendingConnection srv1 of (sock, srv2) \<Rightarrow>
              b\<lparr>server := srv2, client := sock,
                cerr := (if \<not> connected
                         then cerr b @ [''[giw] No clients connected to ImageWatch server'']
                         else cerr b)\<rparr>))
      else b)"

definition start :: "GiwBridge \<Rightarrow> bool \<times> GiwBridge" where
  "start b =
     (case listen (server b) of
        (False, srv) \<Rightarrow>
          (False, b\<lparr>server := srv, cerr := cerr b @ [''[giw] Could not start TCP server'']\<rparr>)
      | (True, srv) \<Rightarrow>
          (let b1 = wait_for_client (b\<lparr>server := srv, process := process_start (process b)\<rparr>)
           in (client b1 \<noteq> None, b1)))"

definition GiwBridge_new :: "QProcess \<Rightarrow> QTcpServer \<Rightarrow> GiwBridge" where
  "GiwBridge_new p srv =
     \<lparr>process = p, server = srv, client = None, received_messages = Map.empty,
      plot_calls = [], cerr = []\<rparr>"

text \<open>
  \<^verbatim>\<open>is_window_ready\<close>. The answer of \<^verbatim>\<open>kill(pid, sig)\<close> belongs to the operating system:
  it is a parameter.
\<close>

definition is_window_ready :: "(int \<Rightarrow> int \<Rightarrow> int) \<Rightarrow> GiwBridge \<Rightarrow> bool" where
  "is_window_ready kill b =
     (client b \<noteq> None \<and> processId (process b) \<noteq> 0 \<and> kill (processId (process b)) 0 = 0)"

section \<open>Frames on the wire\<close>

text \<open>
  Modelled from the spec: the frames the peer sends (\<^verbatim>\<open>Message ::= Kind Payload\<close>): a
  PlotBufferRequest carries a \<^verbatim>\<open>String\<close>, a GetObservedSymbolsResponse a \<^verbatim>\<open>StringSeq\<close>.
\<close>

fun message_type :: "UiMessage \<Rightarrow> MessageType" where
  "message_type (GetObservedSymbolsResponseMessage observed_symbols) = GetObservedSymbolsResponse"
| "message_type (PlotBufferRequestMessage buffer_name) = PlotBufferRequest"

fun payload :: "wire \<Rightarrow> UiMessage \<Rightarrow> string" where
  "payload w (GetObservedSymbolsResponseMessage observed_symbols) = put_symbol_list w observed_symbols"
| "payload w (PlotBufferRequestMessage buffer_name) = put_string w buffer_name"

definition frame :: "wire \<Rightarrow> UiMessage \<Rightarrow> string" where
  "frame w m = header_bytes w (message_type m) @ payload w m"

text \<open>
  What a format has to satisfy for a frame to be read back: a number \<open>fits\<close> when the
  length prefix carries it, a header is in order when its bytes have the width of a
  header and the value of its kind. Headers are at least one byte wide.
\<close>

definition fits :: "wire \<Rightarrow> nat \<Rightarrow> bool" where
  "fits w n = (length (uint_bytes w n) = uint_size w \<and> uint_value w (uint_bytes w n) = n)"

definition tag_ok :: "wire \<Rightarrow> MessageType \<Rightarrow> bool" where
  "tag_ok w k = (length (header_bytes w k) = header_size w \<and> header_value w (header_bytes w k) = k)"

definition wire_ok :: "wire \<Rightarrow> bool" where
  "wire_ok w = (0 < header_size w \<and> tag_ok w PlotBufferRequest \<and> tag_ok w GetObservedSymbolsResponse)"

fun well_formed :: "wire \<Rightarrow> UiMessage \<Rightarrow> bool" where
  "well_formed w (GetObservedSymbolsResponseMessage observed_symbols) =
     (fits w (length observed_symbols) \<and> list_all (\<lambda>s. fits w (length s)) observed_symbols)"
| "well_formed w (PlotBufferRequestMessage buffer_name) = fits w (length buffer_name)"


fun deliver :: "UiMessage list \<Rightarrow> GiwBridge \<Rightarrow> GiwBridge" where
  "deliver [] b = b"
| "deliver (m # ms) b = deliver ms (store_message (message_type m) m b)"

text \<open>What a call returned, which callbacks it made, what it left in the Inbox.\<close>

definition result_of :: "error + 'a \<times> GiwBridge \<Rightarrow> error + 'a" where
  "result_of r = map_sum id fst r"


definition inbox_of :: "MessageType \<Rightarrow> error + GiwBridge \<Rightarrow> error + UiMessage option" where
  "inbox_of k r = map_sum id (\<lambda>b. received_messages b k) r"

definition written_of :: "error + 'a \<times> GiwBridge \<Rightarrow> error + string option" where
  "written_of r = map_sum id (\<lambda>x. map_option written (client (snd x))) r"

text \<open>The client socket after \<^verbatim>\<open>get_observed_symbols\<close> has written its request.\<close>

definition asked :: "wire \<Rightarrow> QTcpSocket \<Rightarrow> QTcpSocket" where
  "asked w sock = socket_write (header_bytes w GetObservedSymbols) sock"

text \<open>
  Sequences of operations on the Inbox: a store is the assignment of the dispatch
  switch, a take is \<^verbatim>\<open>try_get_stored_message\<close> with its result dropped.
\<close>

datatype inbox_op = Store MessageType UiMessage | Take MessageType

fun op_kind :: "inbox_op \<Rightarrow> MessageType" where
  "op_kind (Store k m) = k"
| "op_kind (Take k) = k"

fun inbox_step :: "inbox_op \<Rightarrow> GiwBridge \<Rightarrow> GiwBridge" where
  "inbox_step (Store k m) b = store_message k m b"
| "inbox_step (Take k) b = snd (try_get_stored_message k b)"

fun inbox_run :: "inbox_op list \<Rightarrow> GiwBridge \<Rightarrow> GiwBridge" where
  "inbox_run [] b = b"
| "inbox_run (x # xs) b = inbox_run xs (inbox_step x b)"

section \<open>An example format and example bridges\<close>

text \<open>
  A format with headers and length prefixes of one byte each (the headers are the
  letters O, R, A and P), sockets, servers and bridges: the inputs at which the
  theorems below are instantiated.
\<close>

definition byte_wire :: wire where
  "byte_wire =
     \<lparr>header_size = 1,
      header_value = (\<lambda>raw.
         if raw = ''O'' then GetObservedSymbols
         else if raw = ''R'' then GetObservedSymbolsResponse
         else if raw = ''A'' then SetAvailableSymbols
         else if raw = ''P'' then PlotBufferRequest
         else Other (case raw of [] \<Rightarrow> 0 | c # cs \<Rightarrow> of_char c)),
      header_bytes = (\<lambda>k. case k of
           GetObservedSymbols \<Rightarrow> ''O''
         | GetObservedSymbolsResponse \<Rightarrow> ''R''
         | SetAvailableSymbols \<Rightarrow> ''A''
         | PlotBufferRequest \<Rightarrow> ''P''
         | Other n \<Rightarrow> [char_of n]),
      uint_size = 1,
      uint_value = (\<lambda>raw. case raw of [] \<Rightarrow> 0 | c # cs \<Rightarrow> of_char c),
      uint_bytes = (\<lambda>n. [char_of n]),
      read_timeout = 30000\<rparr>"

definition connected_bridge :: "QTcpSocket \<Rightarrow> GiwBridge" where
  "connected_bridge sock =
     \<lparr>process = \<lparr>launch_pid = 4711, processId = 4711\<rparr>,
      server = \<lparr>bindable = True, listening = True, connecting = [], pending = []\<rparr>,
      client = Some sock, received_messages = Map.empty, plot_calls = [], cerr = []\<rparr>"

definition idle_process :: QProcess where
  "idle_process = \<lparr>launch_pid = 4711, processId = 0\<rparr>"

definition free_port :: QTcpServer where
  "free_port = \<lparr>bindable = True, listening = False, connecting = [], pending = []\<rparr>"


definition socket_receiving :: "(nat \<times> string) list \<Rightarrow> QTcpSocket" where
  "socket_receiving chunks = \<lparr>readable = [], arrivals = chunks, written = []\<rparr>"

definition one_request :: "UiMessage list" where
  "one_request = [PlotBufferRequestMessage ''buf1'']"

definition xyz :: UiMessage where
  "xyz = GetObservedSymbolsResponseMessage [''x'', ''y'', ''z'']"

definition late_reply :: QTcpSocket where
  "late_reply = socket_receiving [(5000, frame byte_wire xyz)]"

definition prompt_reply :: QTcpSocket where
  "prompt_reply = socket_receiving [(500, frame byte_wire xyz)]"

definition every_probe_fails :: "int \<Rightarrow> int \<Rightarrow> int" where
  "every_probe_fails pid sig = - 1"

definition every_probe_succeeds :: "int \<Rightarrow> int \<Rightarrow> int" where
  "every_probe_succeeds pid sig = 0"

definition port_in_use :: QTcpServer where
  "port_in_use = \<lparr>bindable = False, listening = False, connecting = [], pending = []\<rparr>"

definition client_after :: "nat \<Rightarrow> QTcpServer" where
  "client_after delay =
     \<lparr>bindable = True, listening = False, connecting = [(delay, socket_receiving [])], pending = []\<rparr>"

section \<open>Reading well-formed frames\<close>

lemma store_message_client:
  "store_message k m (b\<lparr>client := c\<rparr>) = (store_message k m b)\<lparr>client := c\<rparr>"
  by (simp add: store_message_def)

lemma store_message_cerr:
  "store_message k m (b\<lparr>cerr := c\<rparr>) = (store_message k m b)\<lparr>cerr := c\<rparr>"
  by (simp add: store_message_def)

lemma deliver_client: "deliver ms (b\<lparr>client := c\<rparr>) = (deliver ms b)\<lparr>client := c\<rparr>"
  by (induction ms arbitrary: b) (simp_all add: store_message_client)

lemma deliver_cerr: "deliver ms (b\<lparr>cerr := c\<rparr>) = (deliver ms b)\<lparr>cerr := c\<rparr>"
  by (induction ms arbitrary: b) (simp_all add: store_message_cerr)



lemma read_exact_enough:
  "n \<le> length (readable sock) \<Longrightarrow>
     read_exact w n sock = (Some (take n (readable sock)), sock\<lparr>readable := drop n (readable sock)\<rparr>)"
  by (simp add: read_exact.simps [of w n sock] bytesAvailable_def socket_read_def)

lemma receive_string_put:
  assumes "fits w (length s)" and "readable sock = put_string w s @ rest"
  shows "receive_string w sock = (Some s, sock\<lparr>readable := rest\<rparr>)"
proof -
  let ?p = "uint_bytes w (length s)"
  have len: "length ?p = uint_size w" and val: "uint_value w ?p = length s"
    using assms(1) by (simp_all add: fits_def)
  have r: "readable sock = ?p @ s @ rest"
    using assms(2) by (simp add: put_string_def)
  have 1: "read_exact w (uint_size w) sock = (Some ?p, sock\<lparr>readable := s @ rest\<rparr>)"
    using read_exact_enough [of "uint_size w" sock w] r len by simp
  have 2: "read_exact w (length s) (sock\<lparr>readable := s @ rest\<rparr>) = (Some s, sock\<lparr>readable := rest\<rparr>)"
    using read_exact_enough [of "length s" "sock\<lparr>readable := s @ rest\<rparr>" w] by simp
  show ?thesis by (simp add: receive_string_def 1 val 2)
qed

lemma receive_strings_put:
  assumes "list_all (\<lambda>s. fits w (length s)) ss"
    and "readable sock = concat (map (put_string w) ss) @ rest"
  shows "receive_strings w (length ss) sock = (Some ss, sock\<lparr>readable := rest\<rparr>)"
  using assms
proof (induction ss arbitrary: sock)
  case Nil
  then have "sock\<lparr>readable := rest\<rparr> = sock" by simp
  then show ?case by simp
next
  case (Cons s ss)
  let ?sock1 = "sock\<lparr>readable := concat (map (put_string w) ss) @ rest\<rparr>"
  have 1: "receive_string w sock = (Some s, ?sock1)"
    using receive_string_put [of w s sock "concat (map (put_string w) ss) @ rest"] Cons.prems
    by simp
  have 2: "receive_strings w (length ss) ?sock1 = (Some ss, ?sock1\<lparr>readable := rest\<rparr>)"
    using Cons.IH [of ?sock1] Cons.prems by simp
  show ?case by (simp add: 1 2)
qed

lemma receive_symbol_list_put:
  assumes "fits w (length ss)" and "list_all (\<lambda>s. fits w (length s)) ss"
    and "readable sock = put_symbol_list w ss @ rest"
  shows "receive_symbol_list w sock = (Some ss, sock\<lparr>readable := rest\<rparr>)"
proof -
  let ?p = "uint_bytes w (length ss)"
  let ?body = "concat (map (put_string w) ss) @ rest"
  have len: "length ?p = uint_size w" and val: "uint_value w ?p = length ss"
    using assms(1) by (simp_all add: fits_def)
  have r: "readable sock = ?p @ ?body"
    using assms(3) by (simp add: put_symbol_list_def)
  have 1: "read_exact w (uint_size w) sock = (Some ?p, sock\<lparr>readable := ?body\<rparr>)"
    using read_exact_enough [of "uint_size w" sock w] r len by simp
  have 2: "receive_strings w (length ss) (sock\<lparr>readable := ?body\<rparr>) = (Some ss, sock\<lparr>readable := rest\<rparr>)"
    using receive_strings_put [of w ss "sock\<lparr>readable := ?body\<rparr>" rest] assms(2) by simp
  show ?thesis by (simp add: receive_symbol_list_def 1 val 2)
qed

lemma dispatch_payload:
  assumes "well_formed w m" and "client b = Some sock" and "readable sock = payload w m @ rest"
  shows "dispatch w (message_type m) b =
           Inr (store_message (message_type m) m (b\<lparr>client := Some (sock\<lparr>readable := rest\<rparr>)\<rparr>))"
proof (cases m)
  case (GetObservedSymbolsResponseMessage ss)
  with assms receive_symbol_list_put [of w ss sock rest] show ?thesis
    by (simp add: dispatch_def decode_get_observed_symbols_response_def)
next
  case (PlotBufferRequestMessage s)
  with assms receive_string_put [of w s sock rest] show ?thesis
    by (simp add: dispatch_def decode_plot_buffer_request_def)
qed

lemma dispatch_unhandled:
  assumes "header \<noteq> PlotBufferRequest" and "header \<noteq> GetObservedSymbolsResponse"
  shows "dispatch w header b =
           Inr (b\<lparr>cerr := cerr b @ [''[giw] Received message with incorrect header'']\<rparr>)"
  using assms by (cases header) (simp_all add: dispatch_def)

lemma pass_step:
  assumes "client b = Some sock" and "waitForReadyRead msecs sock = (ready, sock1)"
    and "readable sock1 = raw @ rest" and "length raw = header_size w" and "0 < header_size w"
  shows "try_read_incoming_messages w msecs b =
           (case dispatch w (header_value w raw) (b\<lparr>client := Some (sock1\<lparr>readable := rest\<rparr>)\<rparr>) of
              Inl e \<Rightarrow> Inl e
            | Inr b' \<Rightarrow>
                (case client b' of
                   None \<Rightarrow> Inl AssertionFailed
                 | Some sock3 \<Rightarrow>
                     if bytesAvailable sock3 > 0
                     then try_read_incoming_messages w msecs b'
                     else Inr b'))"
proof -
  have "raw \<noteq> []" using assms(4,5) by auto
  then show ?thesis
    using assms
    by (subst try_read_incoming_messages.simps) (simp add: bytesAvailable_def socket_read_def)
qed

lemma pass_idle:
  assumes "client b = Some sock" and "waitForReadyRead msecs sock = (ready, sock1)"
    and "readable sock1 = []"
  shows "try_read_incoming_messages w msecs b = Inr (b\<lparr>client := Some sock1\<rparr>)"
  using assms
  by (subst try_read_incoming_messages.simps) (simp add: bytesAvailable_def)

lemma wait_quiet:
  "arrivals sock = [] \<Longrightarrow> waitForReadyRead msecs sock = (False, sock)"
  by (simp add: waitForReadyRead_def)

lemma frame_not_empty: "wire_ok w \<Longrightarrow> frame w m \<noteq> []"
  by (cases m) (auto simp: frame_def wire_ok_def tag_ok_def)

lemma frame_header: "wire_ok w \<Longrightarrow> tag_ok w (message_type m)"
  by (cases m) (simp_all add: wire_ok_def)

lemma pass_frames:
  assumes "wire_ok w" and "list_all (well_formed w) ms" and "ms \<noteq> []"
    and "client b = Some sock" and "waitForReadyRead msecs sock = (ready, sock1)"
    and "arrivals sock1 = []" and "readable sock1 = concat (map (frame w) ms)"
  shows "try_read_incoming_messages w msecs b =
           Inr ((deliver ms b)\<lparr>client := Some (sock1\<lparr>readable := []\<rparr>)\<rparr>)"
  using assms(2-)
proof (induction ms arbitrary: b sock ready sock1)
  case Nil
  then show ?case by simp
next
  case (Cons m ms)
  let ?rest = "concat (map (frame w) ms)"
  let ?sock2 = "sock1\<lparr>readable := payload w m @ ?rest\<rparr>"
  let ?sock3 = "sock1\<lparr>readable := ?rest\<rparr>"
  let ?b3 = "store_message (message_type m) m (b\<lparr>client := Some ?sock3\<rparr>)"
  have wf: "well_formed w m" and wfs: "list_all (well_formed w) ms"
    using Cons.prems(1) by simp_all
  have tag: "tag_ok w (message_type m)" using assms(1) by (rule frame_header)
  have hs: "0 < header_size w" using assms(1) by (simp add: wire_ok_def)
  have r1: "readable sock1 = header_bytes w (message_type m) @ payload w m @ ?rest"
    using Cons.prems(6) by (simp add: frame_def [of w m])
  have d: "dispatch w (message_type m) (b\<lparr>client := Some ?sock2\<rparr>) = Inr ?b3"
    using dispatch_payload [of w m "b\<lparr>client := Some ?sock2\<rparr>" ?sock2 ?rest] wf by simp
  have step: "try_read_incoming_messages w msecs b =
                (if bytesAvailable ?sock3 > 0 then try_read_incoming_messages w msecs ?b3
                 else Inr ?b3)"
    using pass_step [OF Cons.prems(3) Cons.prems(4) r1 _ hs] tag d
    by (simp add: tag_ok_def store_message_client)
  show ?case
  proof (cases "ms = []")
    case True
    then show ?thesis using step by (simp add: bytesAvailable_def store_message_client)
  next
    case False
    obtain m' ms' where ms: "ms = m' # ms'" using False by (cases ms) auto
    have "frame w m' \<noteq> []" using frame_not_empty [OF assms(1)] by simp
    then have more: "bytesAvailable ?sock3 > 0" using ms by (simp add: bytesAvailable_def)
    have c3: "client ?b3 = Some ?sock3" by (simp add: store_message_def)
    have q: "waitForReadyRead msecs ?sock3 = (False, ?sock3)"
      using wait_quiet [of ?sock3 msecs] Cons.prems(5) by simp
    have "try_read_incoming_messages w msecs ?b3 =
            Inr ((deliver ms ?b3)\<lparr>client := Some (?sock3\<lparr>readable := []\<rparr>)\<rparr>)"
      using Cons.IH [OF wfs False c3 q] Cons.prems(5) by simp
    then show ?thesis using step more by (simp add: store_message_client deliver_client)
  qed
qed



lemma byte_wire_ok: "wire_ok byte_wire"
  by (simp add: wire_ok_def tag_ok_def byte_wire_def)

lemma byte_wire_fits: "n < 256 \<Longrightarrow> fits byte_wire n"
  by (simp add: fits_def byte_wire_def)

lemma pass_single_frame:
  assumes "wire_ok w" and "well_formed w m" and "client b = Some sock"
    and "waitForReadyRead msecs sock = (ready, sock1)" and "readable sock1 = frame w m"
  shows "try_read_incoming_messages w msecs b =
           Inr (store_message (message_type m) m (b\<lparr>client := Some (sock1\<lparr>readable := []\<rparr>)\<rparr>))"
proof -
  let ?sock2 = "sock1\<lparr>readable := payload w m\<rparr>"
  have tag: "tag_ok w (message_type m)" using assms(1) by (rule frame_header)
  have hs: "0 < header_size w" using assms(1) by (simp add: wire_ok_def)
  have r1: "readable sock1 = header_bytes w (message_type m) @ payload w m"
    using assms(5) by (simp add: frame_def)
  have d: "dispatch w (message_type m) (b\<lparr>client := Some ?sock2\<rparr>) =
             Inr (store_message (message_type m) m (b\<lparr>client := Some (sock1\<lparr>readable := []\<rparr>)\<rparr>))"
    using dispatch_payload [of w m "b\<lparr>client := Some ?sock2\<rparr>" ?sock2 "[]"] assms(2) by simp
  show ?thesis
    using pass_step [OF assms(3) assms(4) r1 _ hs] tag d
    by (simp add: tag_ok_def store_message_def bytesAvailable_def)
qed




lemma waitForNewConnection_timeout:
  "\<not> fst (waitForNewConnection msecs srv) \<Longrightarrow>
     pending (snd (waitForNewConnection msecs srv)) = []"
  by (auto simp: waitForNewConnection_def split: list.splits if_splits)

lemma waitForNewConnection_listening:
  "fst (waitForNewConnection msecs (srv\<lparr>listening := l\<rparr>)) = fst (waitForNewConnection msecs srv)
   \<and> pending (snd (waitForNewConnection msecs (srv\<lparr>listening := l\<rparr>)))
       = pending (snd (waitForNewConnection msecs srv))"
  by (auto simp: waitForNewConnection_def split: list.splits if_splits)


lemma inbox_step_other_kind:
  "op_kind x \<noteq> k \<Longrightarrow> received_messages (inbox_step x b) k = received_messages b k"
  by (cases x) (simp_all add: store_message_def try_get_stored_message_def split: option.splits)

lemma inbox_run_other_kinds:
  "list_all (\<lambda>x. op_kind x \<noteq> k) xs \<Longrightarrow>
     received_messages (inbox_run xs b) k = received_messages b k"
  by (induction xs arbitrary: b) (simp_all add: inbox_step_other_kind)

lemma byte_wire_tags:
  "header_size byte_wire = 1 \<and> header_value byte_wire ''X'' = Other 88"
  by (simp add: byte_wire_def)

lemmas run_defs = run_event_loop_def
  waitForReadyRead_def bytesAvailable_def socket_read_def socket_write_def
  receive_string_def receive_symbol_list_def dispatch_def decode_plot_buffer_request_def
  decode_get_observed_symbols_response_def store_message_def try_get_stored_message_def
  fetch_message_def get_observed_symbols_def send_to_client_def c_str_def
  read_exact.simps try_read_incoming_messages.simps drain_plot_requests.simps
  byte_wire_def connected_bridge_def socket_receiving_def

section \<open>The event-loop tick\<close>




section \<open>Asking for the observed symbols\<close>

text \<open>
  C2 (amended). \<^verbatim>\<open>get_observed_symbols\<close> writes the GetObservedSymbols request on the
  socket and makes one attempt. When a response is in the Inbox already, it is taken
  and its symbols are returned; the socket is not read. When none is there and the
  socket holds no bytes, one read-and-dispatch pass waits at most 3000 ms: if the next
  chunk takes longer, the call returns the empty sequence, whatever that chunk and the
  later ones hold, and has taken nothing from the socket; if the next chunk arrives
  within 3000 ms and is the frame of one well-formed response and no more, the call
  returns its symbols, and the response is taken out of the Inbox again.
\<close>

theorem get_observed_symbols_single_pass:
  assumes "wire_ok w" and "client b = Some sock"
  shows "(received_messages b GetObservedSymbolsResponse
            = Some (GetObservedSymbolsResponseMessage symbols)
          \<longrightarrow> get_observed_symbols w b =
                Inr (symbols,
                     b\<lparr>client := Some (asked w sock),
                       received_messages :=
                         (received_messages b)(GetObservedSymbolsResponse := None)\<rparr>))
       \<and> (received_messages b GetObservedSymbolsResponse = None \<and> readable sock = []
            \<and> arrivals sock = (delay, bytes) # later \<and> 3000 < delay
          \<longrightarrow> get_observed_symbols w b =
                Inr ([], b\<lparr>client :=
                            Some ((asked w sock)\<lparr>arrivals := (delay - 3000, bytes) # later\<rparr>)\<rparr>))
       \<and> (received_messages b GetObservedSymbolsResponse = None \<and> readable sock = []
            \<and> arrivals sock = (delay, frame w (GetObservedSymbolsResponseMessage symbols)) # later
            \<and> delay \<le> 3000 \<and> well_formed w (GetObservedSymbolsResponseMessage symbols)
          \<longrightarrow> get_observed_symbols w b =
                Inr (symbols, b\<lparr>client := Some ((asked w sock)\<lparr>arrivals := later\<rparr>)\<rparr>))"
proof (intro conjI impI)
  assume "received_messages b GetObservedSymbolsResponse
            = Some (GetObservedSymbolsResponseMessage symbols)"
  then show "get_observed_symbols w b =
                Inr (symbols,
                     b\<lparr>client := Some (asked w sock),
                       received_messages :=
                         (received_messages b)(GetObservedSymbolsResponse := None)\<rparr>)"
    using assms(2)
    by (simp add: get_observed_symbols_def send_to_client_def fetch_message_def
                  try_get_stored_message_def asked_def)
next
  let ?b1 = "b\<lparr>client := Some (asked w sock)\<rparr>"
  assume h: "received_messages b GetObservedSymbolsResponse = None \<and> readable sock = []
            \<and> arrivals sock = (delay, bytes) # later \<and> 3000 < delay"
  let ?sock1 = "(asked w sock)\<lparr>arrivals := (delay - 3000, bytes) # later\<rparr>"
  have wt: "waitForReadyRead 3000 (asked w sock) = (False, ?sock1)"
    using h by (simp add: waitForReadyRead_def socket_write_def asked_def)
  have "readable ?sock1 = []" using h by (simp add: socket_write_def asked_def)
  then have "try_read_incoming_messages w 3000 ?b1 = Inr (?b1\<lparr>client := Some ?sock1\<rparr>)"
    using pass_idle [of ?b1 "asked w sock" 3000 False ?sock1 w] wt by simp
  then show "get_observed_symbols w b = Inr ([], b\<lparr>client := Some ?sock1\<rparr>)"
    using assms(2) h
    by (simp add: get_observed_symbols_def send_to_client_def fetch_message_def
                  try_get_stored_message_def asked_def [symmetric])
next
  let ?b1 = "b\<lparr>client := Some (asked w sock)\<rparr>"
  let ?m = "GetObservedSymbolsResponseMessage symbols"
  assume h: "received_messages b GetObservedSymbolsResponse = None \<and> readable sock = []
            \<and> arrivals sock = (delay, frame w ?m) # later
            \<and> delay \<le> 3000 \<and> well_formed w ?m"
  define sock1 where "sock1 = (asked w sock)\<lparr>readable := frame w ?m, arrivals := later\<rparr>"
  have wt: "waitForReadyRead 3000 (asked w sock) = (True, sock1)"
    using h by (simp add: waitForReadyRead_def socket_write_def sock1_def asked_def)
  have r1: "readable sock1 = frame w ?m" by (simp add: sock1_def)
  have fin: "sock1\<lparr>readable := []\<rparr> = (asked w sock)\<lparr>arrivals := later\<rparr>"
    using h by (simp add: sock1_def socket_write_def asked_def)
  have same: "(received_messages b)(GetObservedSymbolsResponse := None) = received_messages b"
    using h by (simp add: fun_upd_idem)
  have "try_read_incoming_messages w 3000 ?b1 =
          Inr (store_message GetObservedSymbolsResponse ?m
                 (?b1\<lparr>client := Some (sock1\<lparr>readable := []\<rparr>)\<rparr>))"
    using pass_single_frame [of w ?m ?b1 "asked w sock" 3000 True sock1] assms(1) h wt r1
    by simp
  then show "get_observed_symbols w b =
               Inr (symbols, b\<lparr>client := Some ((asked w sock)\<lparr>arrivals := later\<rparr>)\<rparr>)"
    using assms(2) h fin same
    by (simp add: get_observed_symbols_def send_to_client_def fetch_message_def
                  try_get_stored_message_def store_message_def asked_def [symmetric])
qed

theorem get_observed_symbols_single_pass_witness:
  "wire_ok byte_wire \<and> well_formed byte_wire xyz
   \<and> arrivals late_reply = [(5000, frame byte_wire xyz)] \<and> (3000::nat) < 5000
   \<and> result_of (get_observed_symbols byte_wire (connected_bridge late_reply)) = Inr []
   \<and> written_of (get_observed_symbols byte_wire (connected_bridge late_reply)) = Inr (Some ''O'')
   \<and> arrivals prompt_reply = [(500, frame byte_wire xyz)] \<and> (500::nat) \<le> 3000
   \<and> result_of (get_observed_symbols byte_wire (connected_bridge prompt_reply))
       = Inr [''x'', ''y'', ''z'']
   \<and> result_of (get_observed_symbols byte_wire
        (store_message GetObservedSymbolsResponse xyz (connected_bridge late_reply)))
       = Inr [''x'', ''y'', ''z'']"
proof -
  have wf: "well_formed byte_wire (GetObservedSymbolsResponseMessage [''x'', ''y'', ''z''])"
    by (simp add: byte_wire_fits)
  have l: "get_observed_symbols byte_wire (connected_bridge late_reply) =
             Inr ([], (connected_bridge late_reply)
                        \<lparr>client := Some ((asked byte_wire late_reply)
                                          \<lparr>arrivals := [(5000 - 3000, frame byte_wire xyz)]\<rparr>)\<rparr>)"
    using get_observed_symbols_single_pass
            [of byte_wire "connected_bridge late_reply" late_reply "[]" 5000
                "frame byte_wire xyz" "[]"]
          byte_wire_ok
    by (simp add: connected_bridge_def late_reply_def socket_receiving_def)
  have p: "get_observed_symbols byte_wire (connected_bridge prompt_reply) =
             Inr ([''x'', ''y'', ''z''],
                  (connected_bridge prompt_reply)
                    \<lparr>client := Some ((asked byte_wire prompt_reply)\<lparr>arrivals := []\<rparr>)\<rparr>)"
    using get_observed_symbols_single_pass
            [of byte_wire "connected_bridge prompt_reply" prompt_reply "[''x'', ''y'', ''z'']"
                500 "frame byte_wire xyz" "[]"]
          byte_wire_ok wf
    by (simp add: connected_bridge_def prompt_reply_def socket_receiving_def xyz_def)
  have i: "result_of (get_observed_symbols byte_wire
             (store_message GetObservedSymbolsResponse xyz (connected_bridge late_reply)))
           = Inr [''x'', ''y'', ''z'']"
    using get_observed_symbols_single_pass
            [of byte_wire "store_message GetObservedSymbolsResponse xyz (connected_bridge late_reply)"
                late_reply "[''x'', ''y'', ''z'']"]
          byte_wire_ok
    by (simp add: connected_bridge_def store_message_def xyz_def result_of_def)
  show ?thesis
    using l p i byte_wire_ok wf
    by (simp add: late_reply_def prompt_reply_def socket_receiving_def xyz_def result_of_def
                  written_of_def asked_def socket_write_def byte_wire_def)
qed

text \<open>
  C2 as it is stated fails: the peer delivers the response with the symbols x, y and z
  after 5000 ms and keeps the connection; the call has returned the empty sequence after
  the 3000 ms of its one pass.
\<close>

theorem late_response_is_not_returned:
  "result_of (get_observed_symbols byte_wire
     (connected_bridge (socket_receiving
        [(5000, [CHR ''R'', CHR 0x03, CHR 0x01, CHR ''x'', CHR 0x01, CHR ''y'',
                 CHR 0x01, CHR ''z''])])))
   = Inr []"
  by (simp add: run_defs result_of_def)




section \<open>The read-and-dispatch pass on its own\<close>

text \<open>
  C4 (amended). When a pass reads a header that is neither PlotBufferRequest nor
  GetObservedSymbolsResponse, it prints the line on \<^verbatim>\<open>cerr\<close>, stores nothing for it and
  keeps the client; it has taken the bytes of the header and no more, and goes on with
  the byte after them. So the well-formed frames that follow the header at once are
  decoded and stored as if the header had not been there. (Of bytes that the offending
  frame has after its header nothing is said: the bridge does not know how many there
  are.)
\<close>

theorem unhandled_header_skips_the_header_only:
  assumes "wire_ok w" and "list_all (well_formed w) ms"
    and "client b = Some sock" and "readable sock = []"
    and "arrivals sock = [(delay, raw @ concat (map (frame w) ms))]" and "delay \<le> msecs"
    and "length raw = header_size w"
    and "header_value w raw \<noteq> PlotBufferRequest"
    and "header_value w raw \<noteq> GetObservedSymbolsResponse"
  shows "try_read_incoming_messages w msecs b =
           Inr ((deliver ms b)
                  \<lparr>client := Some (sock\<lparr>readable := [], arrivals := []\<rparr>),
                   cerr := cerr b @ [''[giw] Received message with incorrect header'']\<rparr>)"
proof -
  let ?rest = "concat (map (frame w) ms)"
  let ?log = "cerr b @ [''[giw] Received message with incorrect header'']"
  define sock1 where "sock1 = sock\<lparr>readable := raw @ ?rest, arrivals := []\<rparr>"
  let ?sock2 = "sock1\<lparr>readable := ?rest\<rparr>"
  let ?b2 = "b\<lparr>client := Some ?sock2, cerr := ?log\<rparr>"
  have hs: "0 < header_size w" using assms(1) by (simp add: wire_ok_def)
  have wt: "waitForReadyRead msecs sock = (True, sock1)"
    using assms(4,5,6) by (simp add: waitForReadyRead_def sock1_def)
  have r1: "readable sock1 = raw @ ?rest" and a1: "arrivals sock1 = []"
    by (simp_all add: sock1_def)
  have fin: "sock1\<lparr>readable := []\<rparr> = sock\<lparr>readable := [], arrivals := []\<rparr>"
    by (simp add: sock1_def)
  have d: "dispatch w (header_value w raw) (b\<lparr>client := Some ?sock2\<rparr>) = Inr ?b2"
    using dispatch_unhandled [OF assms(8,9)] by simp
  have step: "try_read_incoming_messages w msecs b =
                (if bytesAvailable ?sock2 > 0 then try_read_incoming_messages w msecs ?b2
                 else Inr ?b2)"
    using pass_step [OF assms(3) wt r1 assms(7) hs] d by simp
  show ?thesis
  proof (cases "ms = []")
    case True
    then show ?thesis using step fin by (simp add: bytesAvailable_def)
  next
    case False
    obtain m' ms' where ms: "ms = m' # ms'" using False by (cases ms) auto
    have "frame w m' \<noteq> []" using frame_not_empty [OF assms(1)] by simp
    then have more: "bytesAvailable ?sock2 > 0" using ms by (simp add: bytesAvailable_def)
    have q: "waitForReadyRead msecs ?sock2 = (False, ?sock2)"
      using wait_quiet [of ?sock2 msecs] a1 by simp
    have "try_read_incoming_messages w msecs ?b2 =
            Inr ((deliver ms ?b2)\<lparr>client := Some (?sock2\<lparr>readable := []\<rparr>)\<rparr>)"
      using pass_frames [OF assms(1,2) False _ q, of ?b2] a1 by simp
    then show ?thesis using step more fin by (simp add: deliver_client deliver_cerr)
  qed
qed

theorem unhandled_header_skips_the_header_only_witness:
  "wire_ok byte_wire \<and> list_all (well_formed byte_wire) one_request
   \<and> length ''X'' = header_size byte_wire
   \<and> header_value byte_wire ''X'' = Other 88
   \<and> inbox_of PlotBufferRequest (try_read_incoming_messages byte_wire 200
        (connected_bridge (socket_receiving [(10, ''X'' @ concat (map (frame byte_wire) one_request))])))
       = Inr (Some (PlotBufferRequestMessage ''buf1''))"
proof -
  let ?sock = "socket_receiving [(10, ''X'' @ concat (map (frame byte_wire) one_request))]"
  have wf: "list_all (well_formed byte_wire) one_request"
    by (simp add: one_request_def byte_wire_fits)
  have c: "client (connected_bridge ?sock) = Some ?sock" by (simp add: connected_bridge_def)
  have r: "readable ?sock = []" by (simp add: socket_receiving_def)
  have a: "arrivals ?sock = [(10, ''X'' @ concat (map (frame byte_wire) one_request))]"
    by (simp add: socket_receiving_def)
  have l: "length ''X'' = header_size byte_wire" using byte_wire_tags by simp
  have h: "header_value byte_wire ''X'' = Other 88" using byte_wire_tags by simp
  have "try_read_incoming_messages byte_wire 200 (connected_bridge ?sock) =
          Inr ((deliver one_request (connected_bridge ?sock))
                 \<lparr>client := Some (?sock\<lparr>readable := [], arrivals := []\<rparr>),
                  cerr := cerr (connected_bridge ?sock) @
                    [''[giw] Received message with incorrect header'']\<rparr>)"
    using unhandled_header_skips_the_header_only [OF byte_wire_ok wf c r a _ l] h by simp
  then have "inbox_of PlotBufferRequest
               (try_read_incoming_messages byte_wire 200 (connected_bridge ?sock))
             = Inr (Some (PlotBufferRequestMessage ''buf1''))"
    by (simp add: inbox_of_def one_request_def store_message_def)
  with byte_wire_ok wf l h show ?thesis by simp
qed

text \<open>
  C4 as it is stated fails: a frame of an unknown kind X with the four bytes 01 02 P 01
  after its header is followed by the well-formed PlotBufferRequest frame for buf1. The
  pass takes X, 01 and 02 for headers, then P 01 P for a PlotBufferRequest with the
  buffer name P, and the bytes of the frame for buf1 for headers again: the Inbox holds
  a request for P, and none for buf1.
\<close>

theorem payload_of_unhandled_frame_is_read_as_headers:
  "inbox_of PlotBufferRequest (try_read_incoming_messages byte_wire 200
     (connected_bridge (socket_receiving
        [(10, [CHR ''X'', CHR 0x01, CHR 0x02, CHR ''P'', CHR 0x01,
               CHR ''P'', CHR 0x04, CHR ''b'', CHR ''u'', CHR ''f'', CHR ''1''])])))
   = Inr (Some (PlotBufferRequestMessage ''P''))"
  by (simp add: run_defs inbox_of_def)

text \<open>
  C9. A pass that finds no readable bytes and whose wait times out returns, and has
  changed nothing but the time left until the next chunk arrives: the Inbox holds for
  every kind what it held, no message was stored or taken, no callback made, nothing
  read from the socket and nothing written.
\<close>

theorem idle_pass_changes_nothing:
  assumes "client b = Some sock" and "bytesAvailable sock = 0"
    and "\<not> fst (waitForReadyRead msecs sock)"
  shows "try_read_incoming_messages w msecs b =
           Inr (b\<lparr>client := Some (snd (waitForReadyRead msecs sock))\<rparr>)
       \<and> readable (snd (waitForReadyRead msecs sock)) = readable sock
       \<and> written (snd (waitForReadyRead msecs sock)) = written sock
       \<and> inbox_of k (try_read_incoming_messages w msecs b) = Inr (received_messages b k)"
proof -
  obtain ready sock1 where wt: "waitForReadyRead msecs sock = (ready, sock1)"
    by (cases "waitForReadyRead msecs sock")
  have same: "readable sock1 = readable sock \<and> written sock1 = written sock"
    using wt assms(3) by (auto simp: waitForReadyRead_def split: list.splits if_splits)
  then have "readable sock1 = []" using assms(2) by (simp add: bytesAvailable_def)
  then have "try_read_incoming_messages w msecs b = Inr (b\<lparr>client := Some sock1\<rparr>)"
    using pass_idle [OF assms(1) wt] by simp
  then show ?thesis using wt same by (simp add: inbox_of_def)
qed

theorem idle_pass_changes_nothing_witness:
  "client (store_message PlotBufferRequest (PlotBufferRequestMessage ''buf1'')
             (connected_bridge late_reply)) = Some late_reply
   \<and> bytesAvailable late_reply = 0
   \<and> \<not> fst (waitForReadyRead 200 late_reply)
   \<and> inbox_of PlotBufferRequest (try_read_incoming_messages byte_wire 200
        (store_message PlotBufferRequest (PlotBufferRequestMessage ''buf1'')
           (connected_bridge late_reply)))
       = Inr (Some (PlotBufferRequestMessage ''buf1''))
   \<and> inbox_of GetObservedSymbolsResponse (try_read_incoming_messages byte_wire 200
        (store_message PlotBufferRequest (PlotBufferRequestMessage ''buf1'')
           (connected_bridge late_reply)))
       = Inr None"
proof -
  let ?b = "store_message PlotBufferRequest (PlotBufferRequestMessage ''buf1'')
              (connected_bridge late_reply)"
  have c: "client ?b = Some late_reply" by (simp add: store_message_def connected_bridge_def)
  have e: "bytesAvailable late_reply = 0"
    by (simp add: bytesAvailable_def late_reply_def socket_receiving_def)
  have t: "\<not> fst (waitForReadyRead 200 late_reply)"
    by (simp add: waitForReadyRead_def late_reply_def socket_receiving_def)
  have i: "received_messages ?b PlotBufferRequest = Some (PlotBufferRequestMessage ''buf1'')
           \<and> received_messages ?b GetObservedSymbolsResponse = None"
    by (simp add: store_message_def connected_bridge_def)
  have p: "inbox_of PlotBufferRequest (try_read_incoming_messages byte_wire 200 ?b)
             = Inr (received_messages ?b PlotBufferRequest)"
    using idle_pass_changes_nothing [OF c e t, of byte_wire PlotBufferRequest] by blast
  have g: "inbox_of GetObservedSymbolsResponse (try_read_incoming_messages byte_wire 200 ?b)
             = Inr (received_messages ?b GetObservedSymbolsResponse)"
    using idle_pass_changes_nothing [OF c e t, of byte_wire GetObservedSymbolsResponse] by blast
  show ?thesis using c e t i p g by simp
qed

section \<open>Starting and liveness\<close>

text \<open>
  C7. \<^verbatim>\<open>is_window_ready\<close> returns true if and only if a client is connected and the
  identifier of the companion process answers the probe, that is: the process has an
  identifier (\<^verbatim>\<open>processId()\<close> is not 0, what it is while no process runs) and \<^verbatim>\<open>kill\<close> of
  that identifier with signal 0 returns 0. With no client it returns false, whatever
  the process and the operating system say.
\<close>

theorem is_window_ready_iff:
  "(is_window_ready kill b \<longleftrightarrow>
      client b \<noteq> None \<and> processId (process b) \<noteq> 0 \<and> kill (processId (process b)) 0 = 0)
   \<and> (client b = None \<longrightarrow> \<not> is_window_ready kill b)"
  by (simp add: is_window_ready_def)

theorem is_window_ready_iff_witness:
  "client (GiwBridge_new \<lparr>launch_pid = 4711, processId = 4711\<rparr> free_port) = None
   \<and> \<not> is_window_ready every_probe_succeeds
         (GiwBridge_new \<lparr>launch_pid = 4711, processId = 4711\<rparr> free_port)
   \<and> is_window_ready every_probe_succeeds (connected_bridge (socket_receiving []))
   \<and> \<not> is_window_ready every_probe_fails (connected_bridge (socket_receiving []))"
  using is_window_ready_iff
          [of every_probe_succeeds "GiwBridge_new \<lparr>launch_pid = 4711, processId = 4711\<rparr> free_port"]
        is_window_ready_iff [of every_probe_succeeds "connected_bridge (socket_receiving [])"]
        is_window_ready_iff [of every_probe_fails "connected_bridge (socket_receiving [])"]
  by (simp add: GiwBridge_new_def connected_bridge_def
                every_probe_succeeds_def every_probe_fails_def)

text \<open>
  C8. \<^verbatim>\<open>start\<close> reports a failed setup by its result: it returns false when the listening
  endpoint cannot be bound; it returns false when the bridge has no client and none
  connects within the 10000 ms of the wait; and when it returns true the bridge has a
  client.
\<close>

theorem start_reports_setup_failure:
  "(\<not> bindable (server b) \<longrightarrow> \<not> fst (start b))
   \<and> (client b = None \<and> \<not> fst (waitForNewConnection 10000 (server b)) \<longrightarrow> \<not> fst (start b))
   \<and> (fst (start b) \<longrightarrow> client (snd (start b)) \<noteq> None)"
proof (intro conjI impI)
  assume "\<not> bindable (server b)"
  then show "\<not> fst (start b)" by (simp add: start_def listen_def)
next
  assume h: "client b = None \<and> \<not> fst (waitForNewConnection 10000 (server b))"
  show "\<not> fst (start b)"
  proof (cases "bindable (server b) \<and> \<not> listening (server b)")
    case False
    then show ?thesis by (auto simp: start_def listen_def)
  next
    case True
    let ?srv = "(server b)\<lparr>listening := True\<rparr>"
    obtain connected srv1 where wt: "waitForNewConnection 10000 ?srv = (connected, srv1)"
      by (cases "waitForNewConnection 10000 ?srv")
    have no: "\<not> connected"
      using h waitForNewConnection_listening [of 10000 True "server b"] wt by simp
    then have "pending srv1 = []"
      using waitForNewConnection_timeout [of 10000 ?srv] wt by simp
    then have "nextPendingConnection srv1 = (None, srv1)"
      by (simp add: nextPendingConnection_def)
    then show ?thesis
      using True h wt no by (simp add: start_def listen_def wait_for_client_def)
  qed
next
  assume "fst (start b)"
  then show "client (snd (start b)) \<noteq> None"
    by (auto simp: start_def listen_def Let_def split: prod.splits if_splits bool.splits)
qed

theorem start_reports_setup_failure_witness:
  "\<not> bindable (server (GiwBridge_new idle_process port_in_use))
   \<and> \<not> fst (start (GiwBridge_new idle_process port_in_use))
   \<and> client (GiwBridge_new idle_process (client_after 15000)) = None
   \<and> \<not> fst (waitForNewConnection 10000 (server (GiwBridge_new idle_process (client_after 15000))))
   \<and> \<not> fst (start (GiwBridge_new idle_process (client_after 15000)))
   \<and> fst (start (GiwBridge_new idle_process (client_after 500)))
   \<and> client (snd (start (GiwBridge_new idle_process (client_after 500)))) = Some (socket_receiving [])"
proof -
  have 1: "\<not> bindable (server (GiwBridge_new idle_process port_in_use))"
    by (simp add: GiwBridge_new_def port_in_use_def)
  have 2: "client (GiwBridge_new idle_process (client_after 15000)) = None
           \<and> \<not> fst (waitForNewConnection 10000
                      (server (GiwBridge_new idle_process (client_after 15000))))"
    by (simp add: GiwBridge_new_def client_after_def waitForNewConnection_def)
  have 3: "fst (start (GiwBridge_new idle_process (client_after 500)))
           \<and> client (snd (start (GiwBridge_new idle_process (client_after 500))))
               = Some (socket_receiving [])"
    by (simp add: GiwBridge_new_def client_after_def start_def listen_def wait_for_client_def
                  waitForNewConnection_def nextPendingConnection_def process_start_def)
  show ?thesis
    using start_reports_setup_failure [of "GiwBridge_new idle_process port_in_use"]
          start_reports_setup_failure [of "GiwBridge_new idle_process (client_after 15000)"]
          start_reports_setup_failure [of "GiwBridge_new idle_process (client_after 500)"]
          1 2 3
    by simp
qed


section \<open>Properties of the Inbox\<close>

text \<open>
  C5. For every kind \<open>k\<close> and messages \<open>m1\<close>, \<open>m2\<close>: storing \<open>m1\<close> for \<open>k\<close> and then \<open>m2\<close>
  for \<open>k\<close>, with no take in between, leaves one entry for \<open>k\<close>, which is \<open>m2\<close>. The bridge
  is the one in which \<open>m1\<close> was never stored: a take of \<open>k\<close> returns \<open>m2\<close>, the take after
  it returns absent, and \<open>m1\<close> is not delivered.
\<close>

theorem store_twice_last_wins:
  "received_messages (store_message k m2 (store_message k m1 b)) k = Some m2
   \<and> store_message k m2 (store_message k m1 b) = store_message k m2 b
   \<and> fst (try_get_stored_message k (store_message k m2 (store_message k m1 b))) = Some m2
   \<and> fst (try_get_stored_message k
        (snd (try_get_stored_message k (store_message k m2 (store_message k m1 b))))) = None"
  by (simp add: store_message_def try_get_stored_message_def)

text \<open>
  C6. For every kind \<open>k\<close> and message \<open>m\<close>: after \<open>m\<close> is stored for \<open>k\<close>, and after any
  sequence of stores and takes of other kinds, the first take of \<open>k\<close> returns \<open>m\<close> and the
  second returns absent. A take of a kind that has no entry returns absent and leaves
  the bridge as it was: absent is a result, not an error.
\<close>

theorem take_after_store_once:
  "(list_all (\<lambda>x. op_kind x \<noteq> k) xs
    \<longrightarrow> fst (try_get_stored_message k (inbox_run xs (store_message k m b))) = Some m
        \<and> fst (try_get_stored_message k
             (snd (try_get_stored_message k (inbox_run xs (store_message k m b))))) = None)
   \<and> (received_messages b k = None \<longrightarrow> try_get_stored_message k b = (None, b))"
proof (intro conjI impI)
  assume "list_all (\<lambda>x. op_kind x \<noteq> k) xs"
  then have e: "received_messages (inbox_run xs (store_message k m b)) k = Some m"
    using inbox_run_other_kinds [of k xs "store_message k m b"] by (simp add: store_message_def)
  show "fst (try_get_stored_message k (inbox_run xs (store_message k m b))) = Some m"
    using e by (simp add: try_get_stored_message_def)
  show "fst (try_get_stored_message k
          (snd (try_get_stored_message k (inbox_run xs (store_message k m b))))) = None"
    using e by (simp add: try_get_stored_message_def)
next
  assume "received_messages b k = None"
  then show "try_get_stored_message k b = (None, b)"
    by (simp add: try_get_stored_message_def)
qed

theorem take_after_store_once_witness:
  "received_messages (GiwBridge_new idle_process free_port) PlotBufferRequest = None
   \<and> try_get_stored_message PlotBufferRequest (GiwBridge_new idle_process free_port)
       = (None, GiwBridge_new idle_process free_port)
   \<and> list_all (\<lambda>x. op_kind x \<noteq> PlotBufferRequest)
        [Store GetObservedSymbolsResponse xyz, Take GetObservedSymbols,
         Take GetObservedSymbolsResponse, Store GetObservedSymbolsResponse xyz]
   \<and> fst (try_get_stored_message PlotBufferRequest
        (inbox_run
           [Store GetObservedSymbolsResponse xyz, Take GetObservedSymbols,
            Take GetObservedSymbolsResponse, Store GetObservedSymbolsResponse xyz]
           (store_message PlotBufferRequest (PlotBufferRequestMessage ''buf1'')
              (GiwBridge_new idle_process free_port))))
       = Some (PlotBufferRequestMessage ''buf1'')"
proof -
  have o: "list_all (\<lambda>x. op_kind x \<noteq> PlotBufferRequest)
        [Store GetObservedSymbolsResponse xyz, Take GetObservedSymbols,
         Take GetObservedSymbolsResponse, Store GetObservedSymbolsResponse xyz]"
    by simp
  have n: "received_messages (GiwBridge_new idle_process free_port) PlotBufferRequest = None"
    by (simp add: GiwBridge_new_def)
  show ?thesis
    using take_after_store_once
            [of PlotBufferRequest
                "[Store GetObservedSymbolsResponse xyz, Take GetObservedSymbols,
                  Take GetObservedSymbolsResponse, Store GetObservedSymbolsResponse xyz]"
                "PlotBufferRequestMessage ''buf1''" "GiwBridge_new idle_process free_port"]
          o n
    by simp
qed

text \<open>
  C10. A take of kind \<open>k\<close> touches the entry of \<open>k\<close> only: the entry of every other kind
  is after the take what it was before, whether the take returned a message or absent.
\<close>

theorem take_keeps_other_kinds:
  "k' \<noteq> k \<Longrightarrow>
     received_messages (snd (try_get_stored_message k b)) k' = received_messages b k'"
  by (simp add: try_get_stored_message_def split: option.splits)

theorem take_keeps_other_kinds_witness:
  "GetObservedSymbolsResponse \<noteq> PlotBufferRequest
   \<and> received_messages (snd (try_get_stored_message PlotBufferRequest
        (store_message GetObservedSymbolsResponse (GetObservedSymbolsResponseMessage [''x''])
          (store_message PlotBufferRequest (PlotBufferRequestMessage ''buf1'')
            (GiwBridge_new idle_process free_port)))))
       GetObservedSymbolsResponse
     = Some (GetObservedSymbolsResponseMessage [''x''])"
  using take_keeps_other_kinds
    [of GetObservedSymbolsResponse PlotBufferRequest
     "store_message GetObservedSymbolsResponse (GetObservedSymbolsResponseMessage [''x''])
          (store_message PlotBufferRequest (PlotBufferRequestMessage ''buf1'')
            (GiwBridge_new idle_process free_port))"]
  by (simp add: store_message_def)

end
